theory Spec2Isabelle
  imports Complex_Main "HOL-Library.Log_Nat"
begin

section \<open>Data model\<close>

text \<open>
  The rows of the schema migration and the TypeScript interfaces of
  \<^verbatim>\<open>lib/supabase.ts\<close>. Identifiers are uuids carried as strings. A timestamp is the
  instant it denotes, in milliseconds since the epoch (the client renders it with
  \<^verbatim>\<open>toISOString()\<close>, whose order is the order of the instants). Field names carry a
  prefix per table because several tables share the column names \<^verbatim>\<open>id\<close>,
  \<^verbatim>\<open>course_id\<close>, \<^verbatim>\<open>created_at\<close>.
\<close>

type_synonym uuid = string
type_synonym timestamptz = nat

record lesson =
  l_id :: uuid
  l_course_id :: uuid
  l_title :: string
  l_content :: string
  l_order_number :: int
  l_duration_minutes :: int
  l_created_at :: timestamptz

record user_progress =
  up_id :: uuid
  up_user_id :: uuid
  up_course_id :: uuid
  up_lesson_id :: "uuid option"
  up_completed :: bool
  up_completed_at :: "timestamptz option"
  up_created_at :: timestamptz
  up_updated_at :: timestamptz

record profile =
  pr_id :: uuid
  pr_email :: string
  pr_full_name :: string
  pr_created_at :: timestamptz
  pr_updated_at :: timestamptz


section \<open>JavaScript numbers\<close>

text \<open>
  \<^verbatim>\<open>calculateProgress\<close> divides and multiplies JavaScript numbers, which are IEEE 754
  binary64 values: the result of an operation is the exact result rounded to the
  nearest value with a 53-bit significand, ties to the even significand. The values
  that occur here lie between \<open>2\<^sup>-\<^sup>5\<^sup>3\<close> and \<open>100\<close>, far from overflow and from the
  subnormal range, so the exponent is left unbounded. A finite double is the rational
  it denotes.
\<close>

definition pow2 :: "int \<Rightarrow> rat" where
  "pow2 e = (if 0 \<le> e then 2 ^ nat e else 1 / 2 ^ nat (- e))"

text \<open>\<open>ilog2 x\<close> is \<open>\<lfloor>log\<^sub>2 x\<rfloor>\<close> for a positive rational, computed on integers.\<close>

definition ilog2 :: "rat \<Rightarrow> int" where
  "ilog2 x = (if 1 \<le> x then bitlen \<lfloor>x\<rfloor> - 1 else - bitlen (\<lceil>1 / x\<rceil> - 1))"

definition round_half_even :: "rat \<Rightarrow> int" where
  "round_half_even x =
     (let f = \<lfloor>x\<rfloor>; r = x - of_int f
      in if r < 1 / 2 then f
         else if 1 / 2 < r then f + 1
         else if even f then f else f + 1)"

text \<open>Rounding a non-negative exact result to binary64.\<close>

definition to_double :: "rat \<Rightarrow> rat" where
  "to_double x =
     (if x \<le> 0 then 0
      else let e = ilog2 x - 52
           in of_int (round_half_even (x / pow2 e)) * pow2 e)"

definition js_div :: "rat \<Rightarrow> rat \<Rightarrow> rat" where
  "js_div a b = to_double (a / b)"

definition js_mul :: "rat \<Rightarrow> rat \<Rightarrow> rat" where
  "js_mul a b = to_double (a * b)"

text \<open>
  \<^verbatim>\<open>Math.round\<close>: the integer closest to the argument, the larger one when two are
  equally close.
\<close>

definition Math_round :: "rat \<Rightarrow> int" where
  "Math_round x = \<lfloor>x + 1 / 2\<rfloor>"


section \<open>Progress model, read path\<close>

text \<open>
  The three derived values of \<^verbatim>\<open>CourseDetail.tsx\<close>, as functions of the fetched
  \<^verbatim>\<open>lessons\<close> and \<^verbatim>\<open>progress\<close> arrays. \<^verbatim>\<open>Array.prototype.some\<close> is \<^const>\<open>list_ex\<close>,
  \<^verbatim>\<open>filter\<close> is \<^const>\<open>filter\<close>, \<^verbatim>\<open>find\<close> is \<^const>\<open>List.find\<close>.
\<close>

definition isLessonCompleted :: "user_progress list \<Rightarrow> uuid \<Rightarrow> bool" where
  "isLessonCompleted progress lessonId =
     list_ex (\<lambda>p. up_lesson_id p = Some lessonId \<and> up_completed p) progress"

definition isCourseCompleted :: "user_progress list \<Rightarrow> bool" where
  "isCourseCompleted progress =
     list_ex (\<lambda>p. up_lesson_id p = None \<and> up_completed p) progress"

definition calculateProgress :: "lesson list \<Rightarrow> user_progress list \<Rightarrow> int" where
  "calculateProgress lessons progress =
     (if length lessons = 0 then 0
      else let completedLessons =
                 length (filter (\<lambda>lesson. isLessonCompleted progress (l_id lesson)) lessons)
           in Math_round (js_mul (js_div (of_nat completedLessons) (of_nat (length lessons))) 100))"

text \<open>The percentage the specification defines, in exact arithmetic.\<close>

definition spec_percentage :: "nat \<Rightarrow> nat \<Rightarrow> int" where
  "spec_percentage done_count lesson_count =
     (if lesson_count = 0 then 0
      else \<lfloor>(100 * of_nat done_count / of_nat lesson_count :: rat) + 1 / 2\<rfloor>)"


section \<open>Access policy layer\<close>

text \<open>
  The row-level-security policies of the migration, and how the store applies them.
  Every table has row-level security enabled, and every policy is permissive and
  granted \<^verbatim>\<open>TO authenticated\<close>. A request carries the caller's identity: \<open>Some u\<close> is a
  signed-in account (role \<^verbatim>\<open>authenticated\<close>, \<^verbatim>\<open>auth.uid() = u\<close>), \<open>None\<close> is an
  anonymous request (role \<^verbatim>\<open>anon\<close>, \<^verbatim>\<open>auth.uid()\<close> null). A \<^verbatim>\<open>USING\<close> or
  \<^verbatim>\<open>WITH CHECK\<close> expression is a predicate of \<^verbatim>\<open>auth.uid()\<close> and the row.
\<close>

datatype command = SELECT | INSERT | UPDATE | DELETE

datatype role = Anon | Authenticated

record 'row policy =
  pol_name :: string
  pol_command :: command
  pol_to :: role
  pol_using :: "(uuid option \<Rightarrow> 'row \<Rightarrow> bool) option"
  pol_with_check :: "(uuid option \<Rightarrow> 'row \<Rightarrow> bool) option"

definition profiles_policies :: "profile policy list" where
  "profiles_policies =
     [\<lparr>pol_name = ''Users can view own profile'', pol_command = SELECT,
       pol_to = Authenticated,
       pol_using = Some (\<lambda>uid r. uid = Some (pr_id r)), pol_with_check = None\<rparr>,
      \<lparr>pol_name = ''Users can update own profile'', pol_command = UPDATE,
       pol_to = Authenticated,
       pol_using = Some (\<lambda>uid r. uid = Some (pr_id r)),
       pol_with_check = Some (\<lambda>uid r. uid = Some (pr_id r))\<rparr>,
      \<lparr>pol_name = ''Users can insert own profile'', pol_command = INSERT,
       pol_to = Authenticated,
       pol_using = None, pol_with_check = Some (\<lambda>uid r. uid = Some (pr_id r))\<rparr>]"


definition user_progress_policies :: "user_progress policy list" where
  "user_progress_policies =
     [\<lparr>pol_name = ''Users can view own progress'', pol_command = SELECT,
       pol_to = Authenticated,
       pol_using = Some (\<lambda>uid r. uid = Some (up_user_id r)), pol_with_check = None\<rparr>,
      \<lparr>pol_name = ''Users can insert own progress'', pol_command = INSERT,
       pol_to = Authenticated,
       pol_using = None, pol_with_check = Some (\<lambda>uid r. uid = Some (up_user_id r))\<rparr>,
      \<lparr>pol_name = ''Users can update own progress'', pol_command = UPDATE,
       pol_to = Authenticated,
       pol_using = Some (\<lambda>uid r. uid = Some (up_user_id r)),
       pol_with_check = Some (\<lambda>uid r. uid = Some (up_user_id r))\<rparr>]"

definition role_of :: "uuid option \<Rightarrow> role" where
  "role_of caller = (case caller of None \<Rightarrow> Anon | Some u \<Rightarrow> Authenticated)"

text \<open>
  The policies that apply to a command of a caller are those for that command and the
  caller's role. A row passes when some applicable policy's expression is true for
  it; with no applicable policy nothing passes (default deny). A policy with no
  \<^verbatim>\<open>WITH CHECK\<close> expression checks new rows with its \<^verbatim>\<open>USING\<close> expression.
\<close>

definition applicable :: "'row policy list \<Rightarrow> command \<Rightarrow> uuid option \<Rightarrow> 'row policy list" where
  "applicable ps cmd caller =
     filter (\<lambda>p. pol_command p = cmd \<and> pol_to p = role_of caller) ps"

definition using_ok :: "'row policy list \<Rightarrow> command \<Rightarrow> uuid option \<Rightarrow> 'row \<Rightarrow> bool" where
  "using_ok ps cmd caller r =
     list_ex (\<lambda>p. case pol_using p of None \<Rightarrow> False | Some e \<Rightarrow> e caller r)
       (applicable ps cmd caller)"



section \<open>Store operations\<close>

text \<open>
  A table is the list of its rows. The store answers every request (network failures
  are outside the model); a write fails when the new row violates the policies or
  the primary key. The foreign keys of an inserted row (account, course, lesson) are
  taken to exist: no operation of the system deletes their targets.
\<close>

datatype store_error = Rls_violation | Unique_violation

definition rls_select ::
  "'row policy list \<Rightarrow> uuid option \<Rightarrow> ('row \<Rightarrow> bool) \<Rightarrow> 'row list \<Rightarrow> 'row list" where
  "rls_select ps caller wh tbl = filter (\<lambda>r. using_ok ps SELECT caller r \<and> wh r) tbl"

definition pk_insert :: "('row \<Rightarrow> uuid) \<Rightarrow> 'row \<Rightarrow> 'row list \<Rightarrow> store_error + 'row list" where
  "pk_insert key r tbl =
     (if list_ex (\<lambda>r'. key r' = key r) tbl then Inl Unique_violation else Inr (tbl @ [r]))"




text \<open>
  \<^verbatim>\<open>DELETE ... WHERE\<close>: the rows the caller may see and delete that match the
  condition are removed.
\<close>

definition rls_delete ::
  "'row policy list \<Rightarrow> uuid option \<Rightarrow> ('row \<Rightarrow> bool) \<Rightarrow> 'row list \<Rightarrow> 'row list" where
  "rls_delete ps caller wh tbl =
     filter (\<lambda>r. \<not> (using_ok ps SELECT caller r \<and> using_ok ps DELETE caller r \<and> wh r)) tbl"


section \<open>Progress model, write path\<close>












section \<open>Provisioning trigger\<close>

text \<open>
  \<^verbatim>\<open>handle_new_user\<close> runs after each insert into \<^verbatim>\<open>auth.users\<close>, as its definer (the
  policies do not apply). The identity table belongs to the authentication service;
  of its columns the trigger reads the identifier, the email and the signup metadata,
  a JSON object or null. A JSON value is null or has a text form, which is what
  \<^verbatim>\<open>->>\<close> returns.
\<close>

datatype json_value = JNull | JText string

record auth_user =
  au_id :: uuid
  au_email :: string
  au_raw_user_meta_data :: "(string \<rightharpoonup> json_value) option"

definition json_field_text :: "(string \<rightharpoonup> json_value) option \<Rightarrow> string \<Rightarrow> string option" where
  "json_field_text j k =
     (case j of
        None \<Rightarrow> None
      | Some obj \<Rightarrow> (case obj k of None \<Rightarrow> None | Some JNull \<Rightarrow> None | Some (JText s) \<Rightarrow> Some s))"

definition COALESCE :: "'a option \<Rightarrow> 'a \<Rightarrow> 'a" where
  "COALESCE v d = (case v of None \<Rightarrow> d | Some x \<Rightarrow> x)"

definition handle_new_user ::
  "timestamptz \<Rightarrow> auth_user \<Rightarrow> profile list \<Rightarrow> store_error + profile list" where
  "handle_new_user now new tbl =
     pk_insert pr_id
       \<lparr>pr_id = au_id new, pr_email = au_email new,
        pr_full_name = COALESCE (json_field_text (au_raw_user_meta_data new) ''full_name'') [],
        pr_created_at = now, pr_updated_at = now\<rparr>
       tbl"

record auth_database =
  auth_users_tbl :: "auth_user list"
  profiles_tbl :: "profile list"

text \<open>
  Creating an identity: the row is inserted and the trigger \<^verbatim>\<open>on_auth_user_created\<close>
  fires for it in the same transaction; if the trigger fails, so does the insert.
\<close>

definition insert_auth_user ::
  "timestamptz \<Rightarrow> auth_user \<Rightarrow> auth_database \<Rightarrow> store_error + auth_database" where
  "insert_auth_user now new db =
     (case pk_insert au_id new (auth_users_tbl db) of
        Inl err \<Rightarrow> Inl err
      | Inr us \<Rightarrow>
          (case handle_new_user now new (profiles_tbl db) of
             Inl err \<Rightarrow> Inl err
           | Inr ps \<Rightarrow> Inr \<lparr>auth_users_tbl = us, profiles_tbl = ps\<rparr>))"

text \<open>
  The foreign key of \<^verbatim>\<open>profiles.id\<close>: every profile belongs to an identity.
\<close>

definition profiles_fk :: "auth_database \<Rightarrow> bool" where
  "profiles_fk db =
     list_all (\<lambda>p. list_ex (\<lambda>u. au_id u = pr_id p) (auth_users_tbl db)) (profiles_tbl db)"


section \<open>Client initialisation\<close>

text \<open>
  \<^verbatim>\<open>lib/supabase.ts\<close> reads two settings of the build environment, each a string or
  undefined, and throws unless both are truthy; then it calls \<^verbatim>\<open>createClient\<close> with
  them. \<^verbatim>\<open>createClient\<close> belongs to the client library, which is not part of the
  repository: it is a parameter of the module here, a function that returns a client
  or throws (the library rejects, for one, a URL that is not a valid HTTP or HTTPS
  URL).
\<close>

datatype js_error = Error string

text \<open>JavaScript truthiness of a \<^verbatim>\<open>string | undefined\<close>: false for undefined and for the empty string.\<close>

definition truthy :: "string option \<Rightarrow> bool" where
  "truthy v = (case v of None \<Rightarrow> False | Some s \<Rightarrow> s \<noteq> [])"

definition supabase_init ::
  "(string \<Rightarrow> string \<Rightarrow> js_error + 'client) \<Rightarrow> string option \<Rightarrow> string option
     \<Rightarrow> js_error + 'client" where
  "supabase_init createClient supabaseUrl supabaseAnonKey =
     (if \<not> truthy supabaseUrl \<or> \<not> truthy supabaseAnonKey
      then Inl (Error ''Missing Supabase environment variables'')
      else (case (supabaseUrl, supabaseAnonKey) of
              (Some url, Some key) \<Rightarrow> createClient url key
            | _ \<Rightarrow> Inl (Error ''Missing Supabase environment variables'')))"


section \<open>Auxiliary definitions\<close>






section \<open>Example states\<close>

text \<open>
  A course \<^verbatim>\<open>c1\<close> with two lessons, the signed-in account \<^verbatim>\<open>u1\<close> and another account
  \<^verbatim>\<open>u2\<close> that has completed the first lesson.
\<close>

definition ex_lesson1 :: lesson where
  "ex_lesson1 = \<lparr>l_id = ''l1'', l_course_id = ''c1'', l_title = ''Intro'', l_content = [],
     l_order_number = 1, l_duration_minutes = 5, l_created_at = 0\<rparr>"

definition ex_lesson2 :: lesson where
  "ex_lesson2 = \<lparr>l_id = ''l2'', l_course_id = ''c1'', l_title = ''Next'', l_content = [],
     l_order_number = 2, l_duration_minutes = 5, l_created_at = 0\<rparr>"

definition ex_other_row :: user_progress where
  "ex_other_row = \<lparr>up_id = ''p0'', up_user_id = ''u2'', up_course_id = ''c1'',
     up_lesson_id = Some ''l1'', up_completed = True, up_completed_at = Some 1,
     up_created_at = 1, up_updated_at = 1\<rparr>"

definition ex_own_row :: user_progress where
  "ex_own_row = \<lparr>up_id = ''p1'', up_user_id = ''u1'', up_course_id = ''c1'',
     up_lesson_id = Some ''l1'', up_completed = True, up_completed_at = Some 10,
     up_created_at = 10, up_updated_at = 10\<rparr>"





text \<open>A course of forty lessons of which the first twenty-three are completed.\<close>

definition ex_lesson_n :: "nat \<Rightarrow> lesson" where
  "ex_lesson_n i = \<lparr>l_id = replicate (Suc i) CHR ''x'', l_course_id = ''c2'', l_title = [],
     l_content = [], l_order_number = int i, l_duration_minutes = 0, l_created_at = 0\<rparr>"

definition ex_progress_n :: "nat \<Rightarrow> user_progress" where
  "ex_progress_n i = \<lparr>up_id = replicate (Suc i) CHR ''y'', up_user_id = ''u1'',
     up_course_id = ''c2'', up_lesson_id = Some (replicate (Suc i) CHR ''x''),
     up_completed = True, up_completed_at = Some 0, up_created_at = 0, up_updated_at = 0\<rparr>"

definition ex_lessons40 :: "lesson list" where
  "ex_lessons40 = map ex_lesson_n [0..<40]"

definition ex_progress23 :: "user_progress list" where
  "ex_progress23 = map ex_progress_n [0..<23]"

text \<open>An identity table with one account, and two identities about to sign up.\<close>

definition ex_auth_db :: auth_database where
  "ex_auth_db =
     \<lparr>auth_users_tbl = [\<lparr>au_id = ''u1'', au_email = ''u1@example.org'',
                          au_raw_user_meta_data = None\<rparr>],
      profiles_tbl = [\<lparr>pr_id = ''u1'', pr_email = ''u1@example.org'', pr_full_name = [],
                        pr_created_at = 1, pr_updated_at = 1\<rparr>]\<rparr>"

definition ex_named_user :: auth_user where
  "ex_named_user = \<lparr>au_id = ''u2'', au_email = ''ada@example.org'',
     au_raw_user_meta_data = Some [''full_name'' \<mapsto> JText ''Ada'']\<rparr>"

definition ex_plain_user :: auth_user where
  "ex_plain_user = \<lparr>au_id = ''u3'', au_email = ''bob@example.org'',
     au_raw_user_meta_data = None\<rparr>"


text \<open>
  Two client constructors for the examples: one accepts every pair of settings, the
  other, like the library's, rejects a location that is not an HTTP or HTTPS URL.
\<close>

record supabase_client =
  client_url :: string
  client_key :: string

definition ex_accepting_client :: "string \<Rightarrow> string \<Rightarrow> js_error + supabase_client" where
  "ex_accepting_client url key = Inr \<lparr>client_url = url, client_key = key\<rparr>"

definition ex_validating_client :: "string \<Rightarrow> string \<Rightarrow> js_error + supabase_client" where
  "ex_validating_client url key =
     (if take 7 url = ''http://'' \<or> take 8 url = ''https://''
      then Inr \<lparr>client_url = url, client_key = key\<rparr>
      else Inl (Error ''Invalid supabaseUrl''))"


section \<open>Rounding to binary64\<close>

lemma pow2_pos: "0 < pow2 e"
  by (simp add: pow2_def)

lemma round_half_even_le: "x \<le> of_int k \<Longrightarrow> round_half_even x \<le> k"
proof -
  assume a: "x \<le> of_int k"
  have f: "\<lfloor>x\<rfloor> \<le> k" using a by (simp add: floor_le_iff)
  show ?thesis
  proof (cases "\<lfloor>x\<rfloor> = k")
    case True
    then have "x = of_int k" using a by linarith
    then show ?thesis by (simp add: round_half_even_def)
  next
    case False
    then have "\<lfloor>x\<rfloor> + 1 \<le> k" using f by linarith
    then show ?thesis by (simp add: round_half_even_def Let_def)
  qed
qed

lemma round_half_even_nonneg: "0 \<le> x \<Longrightarrow> 0 \<le> round_half_even x"
  by (simp add: round_half_even_def Let_def)

lemma to_double_nonneg: "0 \<le> to_double x"
  by (simp add: to_double_def Let_def round_half_even_nonneg pow2_pos less_imp_le)

lemma bitlen_le: "0 < n \<Longrightarrow> n < 2 ^ k \<Longrightarrow> bitlen n \<le> int k"
proof -
  assume n: "0 < n" and k: "n < 2 ^ k"
  from bitlen_bounds[OF n] have "(2::int) ^ nat (bitlen n - 1) \<le> n" by simp
  with k have "(2::int) ^ nat (bitlen n - 1) < 2 ^ k" by linarith
  then have "nat (bitlen n - 1) < k" by simp
  then show ?thesis by linarith
qed

lemma ilog2_le: "0 < x \<Longrightarrow> x \<le> 100 \<Longrightarrow> ilog2 x \<le> 52"
proof (cases "1 \<le> x")
  case True
  assume "x \<le> 100"
  then have "\<lfloor>x\<rfloor> \<le> 100" by (simp add: floor_le_iff)
  moreover have "0 < \<lfloor>x\<rfloor>" using True by simp
  ultimately have "bitlen \<lfloor>x\<rfloor> \<le> int 7" by (intro bitlen_le) auto
  then show ?thesis using True by (simp add: ilog2_def)
next
  case False
  then show ?thesis using bitlen_nonneg[of "\<lceil>1 / x\<rceil> - 1"] by (simp add: ilog2_def)
qed

text \<open>
  Rounding never crosses an integer bound: up to \<open>100\<close> the spacing of the doubles
  divides \<open>1\<close>, so every integer in that range is a double.
\<close>

lemma to_double_le:
  assumes "x \<le> of_int b" and "x \<le> 100" and "0 \<le> b"
  shows "to_double x \<le> of_int b"
proof (cases "x \<le> 0")
  case True
  then show ?thesis using assms by (simp add: to_double_def)
next
  case False
  then have pos: "0 < x" by simp
  define n where "n = nat (52 - ilog2 x)"
  have e: "ilog2 x - 52 \<le> 0" using ilog2_le[OF pos assms(2)] by simp
  have p: "pow2 (ilog2 x - 52) = 1 / 2 ^ n"
    using e by (auto simp add: pow2_def n_def)
  have "x * 2 ^ n \<le> of_int (b * 2 ^ n)" using assms(1) by simp
  then have "round_half_even (x * 2 ^ n) \<le> b * 2 ^ n" by (rule round_half_even_le)
  then have "(of_int (round_half_even (x * 2 ^ n)) :: rat) \<le> of_int (b * 2 ^ n)"
    by (simp only: of_int_le_iff)
  then have "(of_int (round_half_even (x * 2 ^ n)) :: rat) / 2 ^ n \<le> of_int b"
    by (simp add: field_simps)
  then show ?thesis using False by (simp add: to_double_def Let_def p)
qed


text \<open>
  The rounding is the binary64 one: \<open>ilog2\<close> is the binary exponent, the scaled value
  lies between \<open>2\<^sup>5\<^sup>2\<close> and \<open>2\<^sup>5\<^sup>3\<close>, the result has a significand of at most 53 bits
  and is within half a unit in the last place of the exact value, and a value that
  is a double already is returned unchanged.
\<close>

lemma pow2_add: "pow2 (a + b) = pow2 a * pow2 b"
proof -
  have "pow2 e = 2 powi e" for e
    by (simp add: pow2_def power_int_def field_simps)
  then show ?thesis by (simp add: power_int_add)
qed

lemma pow2_nat: "0 \<le> e \<Longrightarrow> pow2 e = 2 ^ nat e"
  by (simp add: pow2_def)

lemma pow2_mono: "a \<le> c \<Longrightarrow> pow2 a \<le> pow2 c"
proof -
  assume ac: "a \<le> c"
  have "pow2 c = pow2 a * pow2 (c - a)" using pow2_add[of a "c - a"] by simp
  moreover have "1 \<le> pow2 (c - a)" using ac by (simp add: pow2_def)
  ultimately show ?thesis using pow2_pos[of a] by simp
qed

lemma pow2_52_53: "pow2 52 = 2 ^ 52" "pow2 53 = 2 ^ 53"
  by (simp_all add: pow2_def)

lemma ilog2_bounds:
  assumes "0 < x"
  shows "pow2 (ilog2 x) \<le> x \<and> x < pow2 (ilog2 x + 1)"
proof (cases "1 \<le> x")
  case True
  define k where "k = bitlen \<lfloor>x\<rfloor> - 1"
  have f: "0 < \<lfloor>x\<rfloor>" using True by simp
  then have k0: "0 \<le> k"
    unfolding k_def using bitlen_eq_zero_iff[of "\<lfloor>x\<rfloor>"] bitlen_nonneg[of "\<lfloor>x\<rfloor>"] by linarith
  from bitlen_bounds[OF f] have b: "2 ^ nat k \<le> \<lfloor>x\<rfloor>" "\<lfloor>x\<rfloor> < 2 ^ nat (k + 1)"
    by (simp_all add: k_def)
  have "(2::rat) ^ nat k \<le> of_int \<lfloor>x\<rfloor>"
    using b(1) by (metis of_int_le_iff of_int_numeral of_int_power)
  also have "\<dots> \<le> x" by simp
  finally have lo: "pow2 k \<le> x" using k0 by (simp add: pow2_nat)
  have "\<lfloor>x\<rfloor> + 1 \<le> 2 ^ nat (k + 1)" using b(2) by simp
  then have "(of_int (\<lfloor>x\<rfloor> + 1) :: rat) \<le> 2 ^ nat (k + 1)"
    by (metis of_int_le_iff of_int_numeral of_int_power)
  moreover have "x < of_int (\<lfloor>x\<rfloor> + 1)" by linarith
  ultimately have hi: "x < pow2 (k + 1)" using k0 by (simp add: pow2_nat)
  show ?thesis using lo hi True by (simp add: ilog2_def k_def)
next
  case False
  define y where "y = 1 / x"
  define n where "n = \<lceil>y\<rceil> - 1"
  define b where "b = bitlen n"
  have y1: "1 < y" using False assms by (simp add: y_def)
  then have "2 \<le> \<lceil>y\<rceil>" by linarith
  then have n0: "0 < n" by (simp add: n_def)
  have ny: "of_int n < y" "y \<le> of_int n + 1" unfolding n_def by linarith+
  have b1: "1 \<le> b"
    unfolding b_def using n0 bitlen_eq_zero_iff[of n] bitlen_nonneg[of n] by linarith
  from bitlen_bounds[OF n0] have bb: "2 ^ nat (b - 1) \<le> n" "n < 2 ^ nat b"
    by (simp_all add: b_def)
  have "(2::rat) ^ nat (b - 1) \<le> of_int n"
    using bb(1) by (metis of_int_le_iff of_int_numeral of_int_power)
  then have lo: "2 ^ nat (b - 1) < y" using ny(1) by linarith
  have "n + 1 \<le> 2 ^ nat b" using bb(2) by simp
  then have "(of_int (n + 1) :: rat) \<le> 2 ^ nat b"
    by (metis of_int_le_iff of_int_numeral of_int_power)
  then have hi: "y \<le> 2 ^ nat b" using ny(2) by simp
  have x: "x = 1 / y" by (simp add: y_def)
  have y0: "0 < y" using y1 by simp
  have "1 / 2 ^ nat b \<le> x" unfolding x using hi y0 by (simp add: field_simps)
  moreover have "x < 1 / 2 ^ nat (b - 1)" unfolding x using lo y0 by (simp add: field_simps)
  moreover have "pow2 (- b) = 1 / 2 ^ nat b" using b1 by (simp add: pow2_def)
  moreover have "pow2 (- b + 1) = 1 / 2 ^ nat (b - 1)" using b1 by (auto simp add: pow2_def)
  moreover have "ilog2 x = - b" using False by (simp add: ilog2_def b_def n_def y_def)
  ultimately show ?thesis by simp
qed

lemma significand_range:
  assumes "0 < x"
  shows "2 ^ 52 \<le> x / pow2 (ilog2 x - 52) \<and> x / pow2 (ilog2 x - 52) < 2 ^ 53"
proof -
  have p: "pow2 (ilog2 x) = pow2 (ilog2 x - 52) * 2 ^ 52"
    using pow2_add[of "ilog2 x - 52" 52] by (simp only: pow2_52_53 diff_add_cancel)
  have "ilog2 x - 52 + 53 = ilog2 x + 1" by simp
  then have q: "pow2 (ilog2 x + 1) = pow2 (ilog2 x - 52) * 2 ^ 53"
    using pow2_add[of "ilog2 x - 52" 53] by (simp only: pow2_52_53)
  from ilog2_bounds[OF assms] show ?thesis
    unfolding p q using pow2_pos[of "ilog2 x - 52"] by (simp add: field_simps)
qed

lemma round_half_even_nearest: "\<bar>of_int (round_half_even x) - x\<bar> \<le> 1 / 2"
proof -
  have a: "of_int \<lfloor>x\<rfloor> \<le> x" "x < of_int \<lfloor>x\<rfloor> + 1" by linarith+
  show ?thesis
    unfolding round_half_even_def Let_def using a by (auto simp add: abs_le_iff)
qed

lemma round_half_even_int: "round_half_even (of_int m) = m"
  by (simp add: round_half_even_def)

lemma round_half_even_ge: "of_int k \<le> x \<Longrightarrow> k \<le> round_half_even x"
proof -
  assume "of_int k \<le> x"
  then have "k \<le> \<lfloor>x\<rfloor>" by (simp add: le_floor_iff)
  then show ?thesis by (simp add: round_half_even_def Let_def)
qed

lemma to_double_is_double:
  assumes "0 < x"
  shows "\<exists>m. 2 ^ 52 \<le> m \<and> m \<le> 2 ^ 53 \<and> to_double x = of_int m * pow2 (ilog2 x - 52)"
proof -
  let ?s = "x / pow2 (ilog2 x - 52)"
  from significand_range[OF assms]
  have lo: "of_int (2 ^ 52) \<le> ?s" and hi: "?s \<le> of_int (2 ^ 53)"
    by simp_all
  have "2 ^ 52 \<le> round_half_even ?s" by (rule round_half_even_ge[OF lo])
  moreover have "round_half_even ?s \<le> 2 ^ 53" by (rule round_half_even_le[OF hi])
  ultimately have "2 ^ 52 \<le> round_half_even ?s \<and> round_half_even ?s \<le> 2 ^ 53" by simp
  then show ?thesis using assms by (auto simp add: to_double_def Let_def)
qed

lemma to_double_error:
  assumes "0 < x"
  shows "\<bar>to_double x - x\<bar> \<le> pow2 (ilog2 x - 53)"
proof -
  define e where "e = ilog2 x - 52"
  have "ilog2 x - 53 + 1 = e" by (simp add: e_def)
  moreover have "pow2 1 = 2" by (simp add: pow2_def)
  ultimately have h: "pow2 (ilog2 x - 53) = pow2 e / 2"
    using pow2_add[of "ilog2 x - 53" 1] by simp
  have "\<bar>of_int (round_half_even (x / pow2 e)) - x / pow2 e\<bar> \<le> 1 / 2"
    by (rule round_half_even_nearest)
  then have "\<bar>of_int (round_half_even (x / pow2 e)) - x / pow2 e\<bar> * pow2 e \<le> 1 / 2 * pow2 e"
    using pow2_pos[of e] by (intro mult_right_mono) auto
  moreover have "\<bar>of_int (round_half_even (x / pow2 e)) - x / pow2 e\<bar> * pow2 e
     = \<bar>of_int (round_half_even (x / pow2 e)) * pow2 e - x\<bar>"
    using pow2_pos[of e] by (simp add: abs_mult_pos[symmetric] field_simps del: abs_mult_pos)
  ultimately show ?thesis using assms by (simp add: to_double_def Let_def e_def[symmetric] h)
qed

lemma to_double_representable:
  assumes "2 ^ 52 \<le> m" and "m < 2 ^ 53"
  shows "to_double (of_int m * pow2 e) = of_int m * pow2 e"
proof -
  let ?x = "of_int m * pow2 e :: rat"
  have "0 < m" using assms(1) by simp
  then have m0: "(0::rat) < of_int m" by simp
  have x0: "0 < ?x" using m0 pow2_pos[of e] by simp
  have mm: "(2::rat) ^ 52 \<le> of_int m" "(of_int m :: rat) < 2 ^ 53"
    using assms
    by (metis of_int_le_iff of_int_numeral of_int_power,
        metis of_int_less_iff of_int_numeral of_int_power)
  have "ilog2 ?x = e + 52"
  proof (rule ccontr)
    assume ne: "ilog2 ?x \<noteq> e + 52"
    from ilog2_bounds[OF x0]
    have b: "pow2 (ilog2 ?x) \<le> ?x" "?x < pow2 (ilog2 ?x + 1)" by simp_all
    show False
    proof (cases "ilog2 ?x < e + 52")
      case True
      then have "pow2 (ilog2 ?x + 1) \<le> pow2 (e + 52)" by (intro pow2_mono) simp
      also have "\<dots> = pow2 e * 2 ^ 52" using pow2_add[of e 52] by (simp only: pow2_52_53)
      also have "\<dots> \<le> ?x" using mm(1) pow2_pos[of e] by (simp add: mult.commute)
      finally show False using b(2) by simp
    next
      case False
      then have "e + 53 \<le> ilog2 ?x" using ne by simp
      then have "pow2 (e + 53) \<le> pow2 (ilog2 ?x)" by (intro pow2_mono)
      moreover have "pow2 (e + 53) = pow2 e * 2 ^ 53"
        using pow2_add[of e 53] by (simp only: pow2_52_53)
      moreover have "?x < pow2 e * 2 ^ 53"
        using mm(2) pow2_pos[of e] by (simp add: mult.commute)
      ultimately show False using b(1) by simp
    qed
  qed
  then show ?thesis using x0 pow2_pos[of e] by (simp add: to_double_def round_half_even_int)
qed


lemma ilog2_less:
  assumes "0 < x" and "x < pow2 k"
  shows "ilog2 x < k"
proof (rule ccontr)
  assume "\<not> ilog2 x < k"
  then have "pow2 k \<le> pow2 (ilog2 x)" by (intro pow2_mono) simp
  also have "\<dots> \<le> x" using ilog2_bounds[OF assms(1)] by simp
  finally show False using assms(2) by simp
qed

lemma to_double_pos: "0 < x \<Longrightarrow> 0 < to_double x"
proof -
  assume x: "0 < x"
  from to_double_is_double[OF x] obtain m where
    m: "2 ^ 52 \<le> m" "to_double x = of_int m * pow2 (ilog2 x - 52)" by blast
  have "0 < m" using m(1) by simp
  then show ?thesis using m(2) pow2_pos[of "ilog2 x - 52"] by simp
qed

lemma to_double_zero: "to_double 0 = 0"
  by (simp add: to_double_def)

text \<open>The computed percentage is within \<open>2\<^sup>-\<^sup>4\<^sup>5\<close> of the exact one.\<close>

lemma percentage_error:
  assumes c: "c \<le> n" and n: "0 < n"
  shows "\<bar>to_double (to_double (of_nat c / of_nat n) * 100) - 100 * of_nat c / of_nat n\<bar> < pow2 (- 45)"
proof (cases "c = 0")
  case True
  then show ?thesis using pow2_pos[of "- 45"] by (simp add: to_double_zero)
next
  case False
  define x :: rat where "x = of_nat c / of_nat n"
  define q where "q = to_double x"
  define y where "y = to_double (q * 100)"
  have x0: "0 < x" using False n by (simp add: x_def)
  have x1: "x \<le> 1" using c n by (simp add: x_def)
  have "x < pow2 1" using x1 by (simp add: pow2_def)
  then have "ilog2 x - 53 \<le> - 53" using ilog2_less[OF x0, of 1] by simp
  then have "pow2 (ilog2 x - 53) \<le> pow2 (- 53)" by (rule pow2_mono)
  then have eq: "\<bar>q - x\<bar> \<le> pow2 (- 53)" using to_double_error[OF x0] by (simp add: q_def)
  have q0: "0 < q" unfolding q_def by (rule to_double_pos[OF x0])
  have "q \<le> of_int 1" unfolding q_def using x1 by (intro to_double_le) auto
  then have q1: "q \<le> 1" by simp
  have z0: "0 < q * 100" using q0 by simp
  have "q * 100 < pow2 7" using q1 by (simp add: pow2_def)
  then have "ilog2 (q * 100) - 53 \<le> - 47" using ilog2_less[OF z0, of 7] by simp
  then have "pow2 (ilog2 (q * 100) - 53) \<le> pow2 (- 47)" by (rule pow2_mono)
  then have ey: "\<bar>y - q * 100\<bar> \<le> pow2 (- 47)" using to_double_error[OF z0] by (simp add: y_def)
  have "y - 100 * x = (y - q * 100) + 100 * (q - x)" by (simp add: algebra_simps)
  then have "\<bar>y - 100 * x\<bar> \<le> \<bar>y - q * 100\<bar> + \<bar>100 * (q - x)\<bar>"
    by (simp only: abs_triangle_ineq)
  also have "\<bar>100 * (q - x)\<bar> = 100 * \<bar>q - x\<bar>" by (simp only: abs_mult abs_numeral)
  finally have "\<bar>y - 100 * x\<bar> \<le> \<bar>y - q * 100\<bar> + 100 * \<bar>q - x\<bar>" .
  also have "\<dots> \<le> pow2 (- 47) + 100 * pow2 (- 53)"
    by (intro add_mono mult_left_mono eq ey) simp
  also have "\<dots> < pow2 (- 45)" by (simp add: pow2_def)
  finally show ?thesis by (simp add: y_def q_def x_def)
qed


text \<open>
  Away from exact half percentages the code and the specified formula agree. The
  exact percentage \<open>100 c / n\<close> is a half-integer when \<open>200 c\<close> is an odd multiple of
  \<open>n\<close>; otherwise it is at least \<open>1 / (2 n)\<close> away from every half-integer, more than
  the rounding error.
\<close>

lemma percentage_agrees:
  assumes c: "c \<le> n" and n: "0 < n" and small: "n < 2 ^ 44"
    and nh: "\<not> (\<exists>k::int. 200 * int c = (2 * k + 1) * int n)"
  shows "Math_round (js_mul (js_div (of_nat c) (of_nat n)) 100) = spec_percentage c n"
proof -
  define x :: rat where "x = 100 * of_nat c / of_nat n"
  define y where "y = to_double (to_double (of_nat c / of_nat n) * 100)"
  define k where "k = \<lfloor>x + 1 / 2\<rfloor>"
  have nr: "(0::rat) < of_nat n" using n by simp
  have err: "\<bar>y - x\<bar> < pow2 (- 45)" unfolding x_def y_def by (rule percentage_error[OF c n])
  have "(of_nat n :: rat) < 2 ^ 44" using small by (metis of_nat_less_iff of_nat_numeral of_nat_power)
  then have gap: "pow2 (- 45) < 1 / (2 * of_nat n)" using nr by (simp add: pow2_def field_simps)
  have xe: "x * (2 * of_nat n) = of_int (200 * int c)" using nr by (simp add: x_def)
  have lo: "of_int k - 1 / 2 + 1 / (2 * of_nat n) \<le> x"
  proof -
    have "of_int k \<le> x + 1 / 2" unfolding k_def by simp
    then have "(of_int k - 1 / 2) * (2 * of_nat n) \<le> x * (2 * of_nat n)"
      using nr by (intro mult_right_mono) auto
    then have "(of_int ((2 * k - 1) * int n) :: rat) \<le> of_int (200 * int c)"
      unfolding xe by (simp add: algebra_simps)
    then have "(2 * k - 1) * int n \<le> 200 * int c" by (simp only: of_int_le_iff)
    moreover have "200 * int c \<noteq> (2 * (k - 1) + 1) * int n" using nh by blast
    ultimately have "(2 * k - 1) * int n + 1 \<le> 200 * int c" by (simp add: algebra_simps)
    then have "(of_int ((2 * k - 1) * int n + 1) :: rat) \<le> of_int (200 * int c)"
      by (simp only: of_int_le_iff)
    then have "(of_int k - 1 / 2) * (2 * of_nat n) + 1 \<le> x * (2 * of_nat n)"
      unfolding xe by (simp add: algebra_simps)
    then have "((of_int k - 1 / 2) * (2 * of_nat n) + 1) / (2 * of_nat n) \<le> x"
      using nr by (simp add: pos_divide_le_eq)
    then show ?thesis using nr by (simp add: field_simps)
  qed
  have hi: "x \<le> of_int k + 1 / 2 - 1 / (2 * of_nat n)"
  proof -
    have "x + 1 / 2 < of_int k + 1" unfolding k_def by linarith
    then have "x * (2 * of_nat n) < (of_int k + 1 / 2) * (2 * of_nat n)"
      using nr by (intro mult_strict_right_mono) auto
    then have "(of_int (200 * int c) :: rat) < of_int ((2 * k + 1) * int n)"
      unfolding xe by (simp add: algebra_simps)
    then have "200 * int c < (2 * k + 1) * int n" by (simp only: of_int_less_iff)
    then have "200 * int c + 1 \<le> (2 * k + 1) * int n" by simp
    then have "(of_int (200 * int c + 1) :: rat) \<le> of_int ((2 * k + 1) * int n)"
      by (simp only: of_int_le_iff)
    then have "x * (2 * of_nat n) + 1 \<le> (of_int k + 1 / 2) * (2 * of_nat n)"
      unfolding xe by (simp add: algebra_simps)
    then have "x \<le> ((of_int k + 1 / 2) * (2 * of_nat n) - 1) / (2 * of_nat n)"
      using nr by (simp add: pos_le_divide_eq)
    then show ?thesis using nr by (simp add: field_simps)
  qed
  have "of_int k \<le> y + 1 / 2" "y + 1 / 2 < of_int k + 1"
    using lo hi err gap by linarith+
  then have "\<lfloor>y + 1 / 2\<rfloor> = k" by linarith
  then show ?thesis
    using n by (simp add: Math_round_def js_mul_def js_div_def spec_percentage_def y_def k_def x_def)
qed


section \<open>Read path\<close>

lemma calculateProgress_no_lessons: "calculateProgress [] ps = 0"
  by (simp add: calculateProgress_def)

lemma calculateProgress_unfold:
  "lessons \<noteq> [] \<Longrightarrow>
     calculateProgress lessons ps =
       Math_round (to_double (to_double
         (of_nat (length (filter (\<lambda>l. isLessonCompleted ps (l_id l)) lessons))
            / of_nat (length lessons)) * 100))"
  by (simp add: calculateProgress_def js_div_def js_mul_def Let_def)

lemma isLessonCompleted_set:
  "set ps = set ps' \<Longrightarrow> isLessonCompleted ps l = isLessonCompleted ps' l"
  by (simp add: isLessonCompleted_def list_ex_iff)

lemma calculateProgress_agrees:
  assumes small: "length lessons < 2 ^ 44"
    and nh: "\<not> (\<exists>k::int.
                200 * int (length (filter (\<lambda>l. isLessonCompleted ps (l_id l)) lessons))
                  = (2 * k + 1) * int (length lessons))"
  shows "calculateProgress lessons ps =
           spec_percentage (length (filter (\<lambda>l. isLessonCompleted ps (l_id l)) lessons))
             (length lessons)"
proof (cases "lessons = []")
  case True
  then show ?thesis by (simp add: calculateProgress_def spec_percentage_def)
next
  case False
  then have n: "0 < length lessons" by simp
  have c: "length (filter (\<lambda>l. isLessonCompleted ps (l_id l)) lessons) \<le> length lessons"
    by (rule length_filter_le)
  show ?thesis
    using percentage_agrees[OF c n small nh] False by (simp add: calculateProgress_def Let_def)
qed

text \<open>
  C1. The completion percentage equals round(100 \<times> completed lessons / lessons), and
  is 0 for a course without lessons. The second half holds
  (\<open>calculateProgress_no_lessons\<close>), and so does the first whenever the exact
  percentage is not a half-integer (\<open>calculateProgress_agrees\<close>). At an exact half
  percentage the first half can fail: the code rounds the quotient to a double
  before it multiplies by 100, and the product can fall just below the half. With
  23 of 40 lessons completed the exact percentage is 57.5, which rounds to 58; the
  code computes 57.49999999999999 and shows 57.
\<close>

theorem calculateProgress_23_of_40:
  "length ex_lessons40 = 40
   \<and> length (filter (\<lambda>l. isLessonCompleted ex_progress23 (l_id l)) ex_lessons40) = 23
   \<and> calculateProgress ex_lessons40 ex_progress23 = 57
   \<and> spec_percentage 23 40 = 58"
  by code_simp

text \<open>
  C2. The lesson-completed flag of a lesson is true exactly when the fetched progress
  set holds a record with that lesson reference and completed = true; the
  course-completed flag is true exactly when it holds a record with a null lesson
  reference and completed = true.
\<close>

theorem completion_flags_iff:
  "(isLessonCompleted ps lessonId \<longleftrightarrow>
      (\<exists>p. p \<in> set ps \<and> up_lesson_id p = Some lessonId \<and> up_completed p = True))
   \<and> (isCourseCompleted ps \<longleftrightarrow>
      (\<exists>p. p \<in> set ps \<and> up_lesson_id p = None \<and> up_completed p = True))"
  by (auto simp add: isLessonCompleted_def isCourseCompleted_def list_ex_iff)

text \<open>
  C10. For every lesson list and every progress list, duplicates included, the
  completion percentage lies between 0 and 100: the completed lessons are counted
  over the lesson list, each lesson once, by an existence check over the progress
  list, so the percentage depends only on which records exist, not on how many.
\<close>

theorem calculateProgress_bounds:
  "0 \<le> calculateProgress lessons ps \<and> calculateProgress lessons ps \<le> 100
   \<and> length (filter (\<lambda>l. isLessonCompleted ps (l_id l)) lessons) \<le> length lessons
   \<and> (set ps = set ps' \<longrightarrow> calculateProgress lessons ps = calculateProgress lessons ps')"
proof -
  have dup: "set ps = set ps' \<longrightarrow> calculateProgress lessons ps = calculateProgress lessons ps'"
    by (auto simp add: calculateProgress_def isLessonCompleted_set[of ps ps'])
  have bounds: "0 \<le> calculateProgress lessons ps \<and> calculateProgress lessons ps \<le> 100"
  proof (cases "lessons = []")
    case True
    then show ?thesis by (simp add: calculateProgress_def)
  next
    case False
    define c :: rat
      where "c = of_nat (length (filter (\<lambda>l. isLessonCompleted ps (l_id l)) lessons))"
    define n :: rat where "n = of_nat (length lessons)"
    define q where "q = to_double (c / n)"
    define y where "y = to_double (q * 100)"
    have n: "0 < n" using False by (simp add: n_def)
    have cn: "c \<le> n" unfolding c_def n_def by (simp only: of_nat_le_iff length_filter_le)
    have "c / n \<le> 1" using n cn by simp
    then have "q \<le> of_int 1" unfolding q_def by (intro to_double_le) auto
    then have q1: "q \<le> 1" by simp
    have "q * 100 \<le> of_int 100" using q1 by simp
    then have "y \<le> of_int 100" unfolding y_def by (intro to_double_le) auto
    then have y1: "y \<le> 100" by simp
    have y0: "0 \<le> y" by (simp add: y_def to_double_nonneg)
    have "calculateProgress lessons ps = Math_round y"
      using False by (simp add: calculateProgress_unfold y_def q_def c_def n_def)
    moreover have "0 \<le> Math_round y" using y0 by (simp add: Math_round_def)
    moreover have "Math_round y \<le> 100" using y1 by (simp add: Math_round_def floor_le_iff)
    ultimately show ?thesis by simp
  qed
  from dup bounds show ?thesis by simp
qed

theorem calculateProgress_bounds_witness:
  "set [ex_own_row, ex_own_row, ex_own_row] = set [ex_own_row]
   \<and> calculateProgress [ex_lesson1, ex_lesson2] [ex_own_row, ex_own_row, ex_own_row]
       = calculateProgress [ex_lesson1, ex_lesson2] [ex_own_row]
   \<and> calculateProgress [ex_lesson1, ex_lesson2] [ex_own_row] = 50
   \<and> calculateProgress [ex_lesson1, ex_lesson2] [ex_own_row, ex_own_row, ex_own_row] \<le> 100"
proof -
  have s: "set [ex_own_row, ex_own_row, ex_own_row] = set [ex_own_row]" by simp
  have v: "calculateProgress [ex_lesson1, ex_lesson2] [ex_own_row] = 50" by code_simp
  from calculateProgress_bounds[of "[ex_lesson1, ex_lesson2]"
      "[ex_own_row, ex_own_row, ex_own_row]" "[ex_own_row]"] s v
  show ?thesis by simp
qed


section \<open>Access policies\<close>

lemma up_using_select:
  "using_ok user_progress_policies SELECT caller r \<longleftrightarrow> caller = Some (up_user_id r)"
  by (cases caller)
    (auto simp add: using_ok_def applicable_def user_progress_policies_def role_of_def)


lemma up_using_delete: "using_ok user_progress_policies DELETE caller r \<longleftrightarrow> False"
  by (simp add: using_ok_def applicable_def user_progress_policies_def role_of_def)




lemma pr_using_select:
  "using_ok profiles_policies SELECT caller r \<longleftrightarrow> caller = Some (pr_id r)"
  by (cases caller)
    (auto simp add: using_ok_def applicable_def profiles_policies_def role_of_def)

text \<open>
  C8. For distinct authenticated accounts, a SELECT on progress records or on
  profiles issued by one never returns a row owned by the other: the policies let a
  caller select a row only when the row's owner identifier is the caller's
  identity. No policy permits DELETE on progress records, so a DELETE removes
  nothing.
\<close>

theorem rls_select_isolation:
  "(a \<noteq> b \<longrightarrow>
      (\<forall>r \<in> set (rls_select user_progress_policies (Some a) wh tbl). up_user_id r \<noteq> b)
    \<and> (\<forall>p \<in> set (rls_select profiles_policies (Some a) wh' ptbl). pr_id p \<noteq> b))
   \<and> (using_ok user_progress_policies SELECT caller r \<longleftrightarrow> caller = Some (up_user_id r))
   \<and> (using_ok profiles_policies SELECT caller p \<longleftrightarrow> caller = Some (pr_id p))
   \<and> applicable user_progress_policies DELETE caller = []
   \<and> rls_delete user_progress_policies caller wh tbl = tbl"
proof -
  have "applicable user_progress_policies DELETE caller = []"
    by (simp add: applicable_def user_progress_policies_def)
  moreover have "rls_delete user_progress_policies caller wh tbl = tbl"
    by (simp add: rls_delete_def up_using_delete)
  ultimately show ?thesis
    by (auto simp add: rls_select_def up_using_select pr_using_select)
qed

theorem rls_select_isolation_witness:
  "''u1'' \<noteq> ''u2''
   \<and> ex_own_row \<in> set (rls_select user_progress_policies (Some ''u1'') (\<lambda>r. True)
                          [ex_other_row, ex_own_row])
   \<and> ex_other_row \<notin> set (rls_select user_progress_policies (Some ''u1'') (\<lambda>r. True)
                            [ex_other_row, ex_own_row])
   \<and> rls_delete user_progress_policies (Some ''u1'') (\<lambda>r. True) [ex_other_row, ex_own_row]
       = [ex_other_row, ex_own_row]"
proof -
  have d: "''u1'' \<noteq> ''u2''" by simp
  have o: "up_user_id ex_other_row = ''u2''" by (simp add: ex_other_row_def)
  have i: "ex_own_row \<in> set (rls_select user_progress_policies (Some ''u1'') (\<lambda>r. True)
                          [ex_other_row, ex_own_row])"
    by (simp add: rls_select_def up_using_select ex_own_row_def ex_other_row_def)
  from rls_select_isolation[of "''u1''" "''u2''" "\<lambda>r. True" "[ex_other_row, ex_own_row]"
      "\<lambda>r. True" "[]" "Some ''u1''" ex_own_row undefined] d o i
  show ?thesis by blast
qed


section \<open>Write path: the store under the policies\<close>














section \<open>Write path: toggling a lesson\<close>

























section \<open>Write path: marking the course complete\<close>


















section \<open>Provisioning trigger\<close>

text \<open>
  C9. Creating an identity that is new runs the trigger in the same statement and
  adds exactly one profile row: its identifier is the identity's, its email is
  copied from the identity, and its display name is the \<^verbatim>\<open>full_name\<close> field of the
  signup metadata, or the empty string when the metadata or the field is absent or
  null. No other profile row has that identifier.
\<close>

theorem handle_new_user_creates_profile:
  assumes fk: "profiles_fk db"
    and new: "\<not> list_ex (\<lambda>u. au_id u = au_id new) (auth_users_tbl db)"
  shows "\<exists>row. insert_auth_user now new db =
                 Inr \<lparr>auth_users_tbl = auth_users_tbl db @ [new],
                      profiles_tbl = profiles_tbl db @ [row]\<rparr>
             \<and> handle_new_user now new (profiles_tbl db) = Inr (profiles_tbl db @ [row])
             \<and> filter (\<lambda>p. pr_id p = au_id new) (profiles_tbl db @ [row]) = [row]
             \<and> pr_id row = au_id new
             \<and> pr_email row = au_email new
             \<and> pr_full_name row =
                 (case au_raw_user_meta_data new of
                    None \<Rightarrow> []
                  | Some obj \<Rightarrow> (case obj ''full_name'' of Some (JText s) \<Rightarrow> s | _ \<Rightarrow> []))
             \<and> pr_created_at row = now \<and> pr_updated_at row = now"
proof -
  have none: "\<not> list_ex (\<lambda>p. pr_id p = au_id new) (profiles_tbl db)"
    using fk new by (auto simp add: profiles_fk_def list_ex_iff list_all_iff)
  have name: "COALESCE (json_field_text (au_raw_user_meta_data new) ''full_name'') [] =
        (case au_raw_user_meta_data new of
           None \<Rightarrow> []
         | Some obj \<Rightarrow> (case obj ''full_name'' of Some (JText s) \<Rightarrow> s | _ \<Rightarrow> []))"
    by (simp add: COALESCE_def json_field_text_def split: option.splits json_value.splits)
  have "filter (\<lambda>p. pr_id p = au_id new) (profiles_tbl db) = []"
    using none by (auto simp add: list_ex_iff filter_empty_conv)
  then show ?thesis
    using none new by (simp add: insert_auth_user_def handle_new_user_def pk_insert_def name)
qed

theorem handle_new_user_witness:
  "insert_auth_user 5 ex_named_user ex_auth_db =
     Inr \<lparr>auth_users_tbl = auth_users_tbl ex_auth_db @ [ex_named_user],
          profiles_tbl = profiles_tbl ex_auth_db @
            [\<lparr>pr_id = ''u2'', pr_email = ''ada@example.org'', pr_full_name = ''Ada'',
              pr_created_at = 5, pr_updated_at = 5\<rparr>]\<rparr>
   \<and> insert_auth_user 6 ex_plain_user ex_auth_db =
     Inr \<lparr>auth_users_tbl = auth_users_tbl ex_auth_db @ [ex_plain_user],
          profiles_tbl = profiles_tbl ex_auth_db @
            [\<lparr>pr_id = ''u3'', pr_email = ''bob@example.org'', pr_full_name = [],
              pr_created_at = 6, pr_updated_at = 6\<rparr>]\<rparr>"
proof -
  have fk: "profiles_fk ex_auth_db" by (simp add: profiles_fk_def ex_auth_db_def)
  have n1: "\<not> list_ex (\<lambda>u. au_id u = au_id ex_named_user) (auth_users_tbl ex_auth_db)"
    by (simp add: ex_auth_db_def ex_named_user_def)
  have n2: "\<not> list_ex (\<lambda>u. au_id u = au_id ex_plain_user) (auth_users_tbl ex_auth_db)"
    by (simp add: ex_auth_db_def ex_plain_user_def)
  from handle_new_user_creates_profile[OF fk n1, of 5] obtain r1 where
    r1: "insert_auth_user 5 ex_named_user ex_auth_db =
           Inr \<lparr>auth_users_tbl = auth_users_tbl ex_auth_db @ [ex_named_user],
                profiles_tbl = profiles_tbl ex_auth_db @ [r1]\<rparr>"
      "pr_id r1 = au_id ex_named_user" "pr_email r1 = au_email ex_named_user"
      "pr_full_name r1 =
         (case au_raw_user_meta_data ex_named_user of
            None \<Rightarrow> []
          | Some obj \<Rightarrow> (case obj ''full_name'' of Some (JText s) \<Rightarrow> s | _ \<Rightarrow> []))"
      "pr_created_at r1 = 5" "pr_updated_at r1 = 5"
    by blast
  from handle_new_user_creates_profile[OF fk n2, of 6] obtain r2 where
    r2: "insert_auth_user 6 ex_plain_user ex_auth_db =
           Inr \<lparr>auth_users_tbl = auth_users_tbl ex_auth_db @ [ex_plain_user],
                profiles_tbl = profiles_tbl ex_auth_db @ [r2]\<rparr>"
      "pr_id r2 = au_id ex_plain_user" "pr_email r2 = au_email ex_plain_user"
      "pr_full_name r2 =
         (case au_raw_user_meta_data ex_plain_user of
            None \<Rightarrow> []
          | Some obj \<Rightarrow> (case obj ''full_name'' of Some (JText s) \<Rightarrow> s | _ \<Rightarrow> []))"
      "pr_created_at r2 = 6" "pr_updated_at r2 = 6"
    by blast
  have e1: "r1 = \<lparr>pr_id = ''u2'', pr_email = ''ada@example.org'', pr_full_name = ''Ada'',
              pr_created_at = 5, pr_updated_at = 5\<rparr>"
    using r1(2-6) by (cases r1) (simp add: ex_named_user_def)
  have e2: "r2 = \<lparr>pr_id = ''u3'', pr_email = ''bob@example.org'', pr_full_name = [],
              pr_created_at = 6, pr_updated_at = 6\<rparr>"
    using r2(2-6) by (cases r2) (simp add: ex_plain_user_def)
  show ?thesis using r1(1) r2(1) by (simp only: e1 e2)
qed


section \<open>Client initialisation\<close>

text \<open>
  C7, as the code has it. Startup fails with the configuration error, before any
  client is constructed and whatever the client library would do, when either
  setting is absent or is the empty string. When both are present and not empty the
  configuration check passes and the module hands the two settings to the client
  library's constructor: startup proceeds when the library accepts them and fails
  with the library's error when it does not.
\<close>

theorem supabase_init_config:
  "(supabaseUrl = None \<or> supabaseUrl = Some [] \<or>
    supabaseAnonKey = None \<or> supabaseAnonKey = Some []
      \<longrightarrow> supabase_init createClient supabaseUrl supabaseAnonKey
            = Inl (Error ''Missing Supabase environment variables''))
   \<and> (\<forall>url key. supabaseUrl = Some url \<and> url \<noteq> [] \<and> supabaseAnonKey = Some key \<and> key \<noteq> []
      \<longrightarrow> supabase_init createClient supabaseUrl supabaseAnonKey = createClient url key)"
  by (auto simp add: supabase_init_def truthy_def)

theorem supabase_init_config_witness:
  "supabase_init ex_validating_client None (Some ''anon-key'')
     = Inl (Error ''Missing Supabase environment variables'')
   \<and> supabase_init ex_validating_client (Some ''https://db.example.org'') None
       = Inl (Error ''Missing Supabase environment variables'')
   \<and> supabase_init ex_validating_client (Some ''https://db.example.org'') (Some ''anon-key'')
       = Inr \<lparr>client_url = ''https://db.example.org'', client_key = ''anon-key''\<rparr>
   \<and> supabase_init ex_validating_client (Some ''not a url'') (Some ''anon-key'')
       = Inl (Error ''Invalid supabaseUrl'')"
  using supabase_init_config[of None "Some ''anon-key''" ex_validating_client]
    supabase_init_config[of "Some ''https://db.example.org''" None ex_validating_client]
    supabase_init_config[of "Some ''https://db.example.org''" "Some ''anon-key''"
      ex_validating_client]
    supabase_init_config[of "Some ''not a url''" "Some ''anon-key''" ex_validating_client]
  by (simp add: ex_validating_client_def)

text \<open>
  The claim as stated fails for a setting that is present but empty: both settings
  are defined, the client library would accept them, and startup still raises the
  configuration error.
\<close>

theorem supabase_init_empty_setting:
  "supabase_init ex_accepting_client (Some []) (Some ''anon-key'')
     = Inl (Error ''Missing Supabase environment variables'')"
  by (simp add: supabase_init_def truthy_def)

end
